theory Spec2Isabelle
  imports Complex_Main
begin

section \<open>Python strings\<close>

text \<open>
  A Python \<open>str\<close> is modelled as a \<open>string\<close>; a \<open>char\<close> stands for a code point
  below 256.  \<open>is_space\<close> lists the code points below 256 for which Python's
  \<open>str.isspace\<close> holds; these are the characters \<open>str.strip()\<close> removes.
\<close>

definition newline :: char where
  "newline = CHR 0x0A"

definition is_space :: "char \<Rightarrow> bool" where
  "is_space c = (c \<in> set [CHR 0x09, CHR 0x0A, CHR 0x0B, CHR 0x0C, CHR 0x0D,
                           CHR 0x1C, CHR 0x1D, CHR 0x1E, CHR 0x1F, CHR 0x20,
                           CHR 0x85, CHR 0xA0])"

text \<open>\<open>s.strip()\<close>\<close>

definition py_strip :: "string \<Rightarrow> string" where
  "py_strip s = rev (dropWhile is_space (rev (dropWhile is_space s)))"

text \<open>
  \<open>s.split("\n")\<close>.  The result is never the empty list, so the case \<open>[]\<close> below
  is never taken.
\<close>

fun split_nl :: "string \<Rightarrow> string list" where
  "split_nl [] = [[]]"
| "split_nl (c # cs) =
     (if c = newline then [] # split_nl cs
      else (case split_nl cs of [] \<Rightarrow> [[c]] | l # ls \<Rightarrow> (c # l) # ls))"

text \<open>\<open>"\n".join(lines)\<close>\<close>

fun join_nl :: "string list \<Rightarrow> string" where
  "join_nl [] = []"
| "join_nl [l] = l"
| "join_nl (l # ls) = l @ newline # join_nl ls"

text \<open>\<open>s.startswith(p)\<close>\<close>

definition startswith :: "string \<Rightarrow> string \<Rightarrow> bool" where
  "startswith s p = (take (length p) s = p)"

text \<open>\<open>sub in s\<close>\<close>

fun py_in :: "string \<Rightarrow> string \<Rightarrow> bool" where
  "py_in sub [] = (sub = [])"
| "py_in sub (c # cs) = (startswith (c # cs) sub \<or> py_in sub cs)"

section \<open>Decoded JSON values\<close>

text \<open>
  The values \<open>json.loads\<close> returns: \<open>None\<close>, \<open>bool\<close>, \<open>int\<close>, \<open>str\<close>, \<open>list\<close> and
  \<open>dict\<close> (in insertion order).  Numbers with a fraction or an exponent (Python
  floats) are outside the embedding.  Python is dynamically typed, so every value
  the parser reads from a payload, and every message field it fills from one, is
  a \<open>json\<close>.
\<close>

datatype json =
    JNull
  | JBool bool
  | JInt int
  | JString string
  | JArray "json list"
  | JObject "(string \<times> json) list"

text \<open>Python truthiness (\<open>if x:\<close>, \<open>x or y\<close>).\<close>

fun py_truthy :: "json \<Rightarrow> bool" where
  "py_truthy JNull = False"
| "py_truthy (JBool b) = b"
| "py_truthy (JInt i) = (i \<noteq> 0)"
| "py_truthy (JString s) = (s \<noteq> [])"
| "py_truthy (JArray xs) = (xs \<noteq> [])"
| "py_truthy (JObject kvs) = (kvs \<noteq> [])"

datatype py_error =
    CLIJSONDecodeError string
  | AttributeError
  | TypeError

text \<open>\<open>d.get(key, default)\<close> on a dict.\<close>

definition dict_get :: "(string \<times> json) list \<Rightarrow> string \<Rightarrow> json \<Rightarrow> json" where
  "dict_get kvs key dflt = (case map_of kvs key of None \<Rightarrow> dflt | Some v \<Rightarrow> v)"

text \<open>\<open>x.get(key, default)\<close> on any value: only a dict has \<open>get\<close>.\<close>

fun py_get :: "json \<Rightarrow> string \<Rightarrow> json \<Rightarrow> py_error + json" where
  "py_get (JObject kvs) key dflt = Inr (dict_get kvs key dflt)"
| "py_get _ key dflt = Inl AttributeError"

text \<open>\<open>x.items()\<close>\<close>

fun py_items :: "json \<Rightarrow> py_error + (string \<times> json) list" where
  "py_items (JObject kvs) = Inr kvs"
| "py_items _ = Inl AttributeError"

text \<open>\<open>total += x\<close> for an \<open>int\<close> total; \<open>bool\<close> is a subclass of \<open>int\<close>.\<close>

fun py_add :: "int \<Rightarrow> json \<Rightarrow> py_error + int" where
  "py_add t (JInt i) = Inr (t + i)"
| "py_add t (JBool b) = Inr (t + (if b then 1 else 0))"
| "py_add t _ = Inl TypeError"

text \<open>
  \<open>x[:100]\<close>: a prefix of a \<open>str\<close> or a \<open>list\<close>; any other value raises
  (\<open>TypeError\<close>; for a dict \<open>KeyError\<close> from Python 3.12 on, modelled as \<open>TypeError\<close>).
\<close>

fun py_slice100 :: "json \<Rightarrow> py_error + json" where
  "py_slice100 (JString s) = Inr (JString (take 100 s))"
| "py_slice100 (JArray xs) = Inr (JArray (take 100 xs))"
| "py_slice100 _ = Inl TypeError"

section \<open>Message model\<close>

text \<open>
  Modelled from the spec: \<open>types.py\<close> is not among the sources.  The message and
  content-block variants of the spec's data model, as plain data without
  validation; optional fields default to absent.
\<close>

datatype content_block =
    TextBlock json
  | CodeBlock json json
  | ToolUseBlock json json
  | ToolResultBlock json json bool

record result_message =
  subtype :: json
  duration_ms :: json
  is_error :: bool
  session_id :: json
  num_turns :: int
  total_cost_usd :: "real option"
  usage :: "(string \<times> json) list option"
  result :: "json option"

datatype message =
    SystemMessage json "(string \<times> json) list"
  | UserMessage json
  | AssistantMessage "content_block list"
  | ResultMessage result_message

section \<open>Session ids\<close>

text \<open>Decimal rendering of an \<open>int\<close>, as an f-string does.\<close>

definition digit_char :: "int \<Rightarrow> char" where
  "digit_char d = ''0123456789'' ! nat d"

function show_digits :: "int \<Rightarrow> string" where
  "show_digits i =
     (if i < 10 then [digit_char i]
      else show_digits (i div 10) @ [digit_char (i mod 10)])"
  by pat_completeness auto
termination
  by (relation "measure nat") auto

declare show_digits.simps [simp del]

definition show_int :: "int \<Rightarrow> string" where
  "show_int i = (if i < 0 then CHR ''-'' # show_digits (- i) else show_digits i)"

text \<open>
  \<open>_generate_session_id\<close>: the argument is the clock reading
  \<open>int(datetime.now().timestamp() * 1000)\<close> at the moment of the call.
\<close>

definition generate_session_id :: "int \<Rightarrow> string" where
  "generate_session_id ms = ''gemini-'' @ show_int ms"

section \<open>The JSON parser\<close>

subsection \<open>Single-JSON payloads\<close>

text \<open>The loop over \<open>models_stats.items()\<close> with its two running totals.\<close>

fun sum_models :: "(string \<times> json) list \<Rightarrow> int \<times> int \<Rightarrow> py_error + int \<times> int" where
  "sum_models [] totals = Inr totals"
| "sum_models ((model_name, model_data) # rest) (total_duration_ms, total_tokens) =
     (case py_get model_data ''api'' (JObject []) of Inl e \<Rightarrow> Inl e
      | Inr api_stats \<Rightarrow>
     (case py_get model_data ''tokens'' (JObject []) of Inl e \<Rightarrow> Inl e
      | Inr token_stats \<Rightarrow>
     (case py_get api_stats ''totalLatencyMs'' (JInt 0) of Inl e \<Rightarrow> Inl e
      | Inr latency \<Rightarrow>
     (case py_add total_duration_ms latency of Inl e \<Rightarrow> Inl e
      | Inr total_duration_ms' \<Rightarrow>
     (case py_get token_stats ''total'' (JInt 0) of Inl e \<Rightarrow> Inl e
      | Inr tokens \<Rightarrow>
     (case py_add total_tokens tokens of Inl e \<Rightarrow> Inl e
      | Inr total_tokens' \<Rightarrow>
        sum_models rest (total_duration_ms', total_tokens')))))))"

text \<open>
  \<open>_parse_single_json\<close>.  \<open>loads\<close> is \<open>json.loads\<close> (\<open>None\<close> when it raises
  \<open>JSONDecodeError\<close>); \<open>now\<close> is the clock reading taken by the one call of
  \<open>_generate_session_id\<close>.
\<close>

definition parse_single_json ::
  "(string \<Rightarrow> json option) \<Rightarrow> int \<Rightarrow> string \<Rightarrow> py_error + message list" where
  "parse_single_json loads now json_str =
     (case loads json_str of None \<Rightarrow> Inl (CLIJSONDecodeError json_str)
      | Some data \<Rightarrow>
     (case py_get data ''response'' (JString []) of Inl e \<Rightarrow> Inl e
      | Inr response_text \<Rightarrow>
     (let messages =
            (if py_truthy response_text
             then [AssistantMessage [TextBlock response_text]] else [])
      in
     (case py_get data ''stats'' (JObject []) of Inl e \<Rightarrow> Inl e
      | Inr stats \<Rightarrow>
     (case py_get stats ''models'' (JObject []) of Inl e \<Rightarrow> Inl e
      | Inr models_stats \<Rightarrow>
     (let total_cost = (0 :: real) in
     (case py_items models_stats of Inl e \<Rightarrow> Inl e
      | Inr items \<Rightarrow>
     (case sum_models items (0, 0) of Inl e \<Rightarrow> Inl e
      | Inr (total_duration_ms, total_tokens) \<Rightarrow>
     (case py_get stats ''tools'' (JObject []) of Inl e \<Rightarrow> Inl e
      | Inr tool_stats \<Rightarrow>
     (case py_get tool_stats ''totalCalls'' (JInt 0) of Inl e \<Rightarrow> Inl e
      | Inr tool_calls \<Rightarrow>
     (case (if py_truthy response_text
            then map_sum id Some (py_slice100 response_text) else Inr None) of
        Inl e \<Rightarrow> Inl e
      | Inr result_text \<Rightarrow>
        Inr (messages @
          [ResultMessage
            \<lparr> subtype = JString ''success'',
              duration_ms = JInt total_duration_ms,
              is_error = False,
              session_id = JString (generate_session_id now),
              num_turns = 1,
              total_cost_usd = (if total_cost > 0 then Some total_cost else None),
              usage = Some [(''total_tokens'', JInt total_tokens),
                            (''tool_calls'', tool_calls),
                            (''models'', models_stats)],
              result = result_text \<rparr>]))))))))))))"

subsection \<open>Stream-JSON payloads\<close>

text \<open>
  The variables of the loop in \<open>_parse_stream_json\<close>: the messages so far, the
  running \<open>session_id\<close> (\<open>None\<close> is \<open>JNull\<close>), and the number of clock readings
  taken so far.  The clock is a function from the index of a reading to the
  milliseconds it returns.
\<close>

record stream_state =
  messages :: "message list"
  current_session :: json
  clock_reads :: nat

definition initial_state :: stream_state where
  "initial_state = \<lparr> messages = [], current_session = JNull, clock_reads = 0 \<rparr>"

text \<open>
  \<open>session_id or self._generate_session_id()\<close>: the clock is read only when the
  running session id is falsy.
\<close>

definition session_or_new :: "(nat \<Rightarrow> int) \<Rightarrow> stream_state \<Rightarrow> json \<times> nat" where
  "session_or_new clock st =
     (if py_truthy (current_session st) then (current_session st, clock_reads st)
      else (JString (generate_session_id (clock (clock_reads st))), Suc (clock_reads st)))"

text \<open>The body of the loop, for a decoded line that is a dict.\<close>

definition stream_event ::
  "(nat \<Rightarrow> int) \<Rightarrow> stream_state \<Rightarrow> (string \<times> json) list \<Rightarrow> py_error + stream_state" where
  "stream_event clock st data =
     (let msg_type = dict_get data ''type'' JNull in
      if msg_type = JString ''init'' then
        (let session_id =
               dict_get data ''session_id''
                 (JString (generate_session_id (clock (clock_reads st))))
         in Inr \<lparr> messages = messages st @
                     [SystemMessage (JString ''init'')
                        [(''session_id'', session_id),
                         (''model'', dict_get data ''model'' JNull),
                         (''timestamp'', dict_get data ''timestamp'' JNull)]],
                  current_session = session_id,
                  clock_reads = Suc (clock_reads st) \<rparr>)
      else if msg_type = JString ''message'' then
        (let role = dict_get data ''role'' JNull;
             content = dict_get data ''content'' (JString [])
         in if role = JString ''user'' then
              Inr (st \<lparr> messages := messages st @ [UserMessage content] \<rparr>)
            else if role = JString ''assistant'' then
              (let is_delta = dict_get data ''delta'' (JBool False)
               in if py_truthy content then
                    Inr (st \<lparr> messages := messages st @
                                 [AssistantMessage [TextBlock content]] \<rparr>)
                  else Inr st)
            else Inr st)
      else if msg_type = JString ''result'' then
        (case py_get (JObject data) ''stats'' (JObject []) of Inl e \<Rightarrow> Inl e
         | Inr stats \<Rightarrow>
        (case py_get stats ''duration_ms'' (JInt 0) of Inl e \<Rightarrow> Inl e
         | Inr duration \<Rightarrow>
        (case py_get stats ''total_tokens'' (JInt 0) of Inl e \<Rightarrow> Inl e
         | Inr total_tokens \<Rightarrow>
        (case py_get stats ''input_tokens'' (JInt 0) of Inl e \<Rightarrow> Inl e
         | Inr input_tokens \<Rightarrow>
        (case py_get stats ''output_tokens'' (JInt 0) of Inl e \<Rightarrow> Inl e
         | Inr output_tokens \<Rightarrow>
        (case py_get stats ''tool_calls'' (JInt 0) of Inl e \<Rightarrow> Inl e
         | Inr tool_calls \<Rightarrow>
        (let (sid, reads) = session_or_new clock st
         in Inr \<lparr> messages = messages st @
                     [ResultMessage
                       \<lparr> subtype = dict_get data ''status'' (JString ''success''),
                         duration_ms = duration,
                         is_error = (dict_get data ''status'' JNull = JString ''error''),
                         session_id = sid,
                         num_turns = 1,
                         total_cost_usd = None,
                         usage = Some [(''total_tokens'', total_tokens),
                                       (''input_tokens'', input_tokens),
                                       (''output_tokens'', output_tokens),
                                       (''tool_calls'', tool_calls)],
                         result = None \<rparr>],
                  current_session = current_session st,
                  clock_reads = reads \<rparr>)))))))
      else if msg_type = JString ''error'' then
        (let (sid, reads) = session_or_new clock st
         in Inr \<lparr> messages = messages st @
                     [ResultMessage
                       \<lparr> subtype = JString ''error'',
                         duration_ms = JInt 0,
                         is_error = True,
                         session_id = sid,
                         num_turns = 0,
                         total_cost_usd = None,
                         usage = None,
                         result = Some (dict_get data ''message'' (JString ''Unknown error'')) \<rparr>],
                  current_session = current_session st,
                  clock_reads = reads \<rparr>)
      else Inr st)"

text \<open>
  One iteration of the loop: blank lines, lines not starting with \<open>{\<close> and lines
  \<open>json.loads\<close> rejects are skipped; a decoded value that is not a dict has no
  \<open>get\<close>.
\<close>

definition stream_line ::
  "(string \<Rightarrow> json option) \<Rightarrow> (nat \<Rightarrow> int) \<Rightarrow> stream_state \<Rightarrow> string
     \<Rightarrow> py_error + stream_state" where
  "stream_line loads clock st raw_line =
     (let line = py_strip raw_line in
      if line = [] \<or> \<not> startswith line ''{'' then Inr st
      else (case loads line of None \<Rightarrow> Inr st
            | Some (JObject data) \<Rightarrow> stream_event clock st data
            | Some _ \<Rightarrow> Inl AttributeError))"

fun stream_lines ::
  "(string \<Rightarrow> json option) \<Rightarrow> (nat \<Rightarrow> int) \<Rightarrow> stream_state \<Rightarrow> string list
     \<Rightarrow> py_error + stream_state" where
  "stream_lines loads clock st [] = Inr st"
| "stream_lines loads clock st (l # ls) =
     (case stream_line loads clock st l of Inl e \<Rightarrow> Inl e
      | Inr st' \<Rightarrow> stream_lines loads clock st' ls)"

definition parse_stream_json ::
  "(string \<Rightarrow> json option) \<Rightarrow> (nat \<Rightarrow> int) \<Rightarrow> string \<Rightarrow> py_error + message list" where
  "parse_stream_json loads clock json_str =
     map_sum id messages
       (stream_lines loads clock initial_state (split_nl (py_strip json_str)))"

subsection \<open>Cleaning and format detection\<close>

text \<open>The loop of \<open>_clean_output\<close>; the second argument is \<open>json_lines\<close>.\<close>

fun clean_lines :: "string list \<Rightarrow> string list \<Rightarrow> string list" where
  "clean_lines [] json_lines = json_lines"
| "clean_lines (line # lines) json_lines =
     (let stripped = py_strip line in
      if startswith stripped ''{'' \<or> startswith stripped ''['' then
        clean_lines lines (json_lines @ [line])
      else if json_lines \<noteq> [] then clean_lines lines (json_lines @ [line])
      else clean_lines lines json_lines)"

definition clean_output :: "string \<Rightarrow> string" where
  "clean_output output = join_nl (clean_lines (split_nl (py_strip output)) [])"

datatype parse_failure =
  ParsingError (raw_output_of: string) (original_error_of: py_error)

text \<open>
  \<open>JSONParser.parse\<close>.  Every exception of either branch is wrapped in a
  \<open>ParsingError\<close>; the single-JSON branch takes the first clock reading.
\<close>

definition parse ::
  "(string \<Rightarrow> json option) \<Rightarrow> (nat \<Rightarrow> int) \<Rightarrow> string \<Rightarrow> string
     \<Rightarrow> parse_failure + message list" where
  "parse loads clock raw_output stderr =
     (if raw_output = [] \<or> py_strip raw_output = [] then Inr []
      else
        (let cleaned_output = clean_output raw_output in
         if cleaned_output = [] then Inr []
         else
           map_sum (ParsingError raw_output) id
             (if startswith (py_strip cleaned_output) ''{''
                 \<and> \<not> py_in (newline # ''{'') cleaned_output
              then parse_single_json loads (clock 0) cleaned_output
              else parse_stream_json loads clock cleaned_output)))"

section \<open>A JSON decoder for concrete payloads\<close>

text \<open>
  \<open>json.loads\<close> belongs to the Python standard library, not to the repository: the
  parser above takes the decoder as the parameter \<open>loads\<close>, and the theorems below
  hold for every decoder.  \<open>json_loads\<close> is a recursive-descent decoder for JSON
  without fractions, exponents and \<open>\u\<close> escapes, used to run the parser on
  concrete payloads.  Objects keep the position of the first occurrence of a key
  and the value of the last, as a Python dict does.
\<close>

definition is_json_ws :: "char \<Rightarrow> bool" where
  "is_json_ws c = (c \<in> set [CHR 0x20, CHR 0x09, CHR 0x0A, CHR 0x0D])"

definition skip_ws :: "string \<Rightarrow> string" where
  "skip_ws s = dropWhile is_json_ws s"

definition is_digit :: "char \<Rightarrow> bool" where
  "is_digit c = (c \<in> set ''0123456789'')"

definition digit_val :: "char \<Rightarrow> nat" where
  "digit_val c = length (takeWhile (\<lambda>d. d \<noteq> c) ''0123456789'')"

definition decode_escape :: "char \<Rightarrow> char option" where
  "decode_escape e =
     map_of [(CHR 0x22, CHR 0x22), (CHR 0x5C, CHR 0x5C), (CHR ''/'', CHR ''/''),
             (CHR ''b'', CHR 0x08), (CHR ''f'', CHR 0x0C), (CHR ''n'', CHR 0x0A),
             (CHR ''r'', CHR 0x0D), (CHR ''t'', CHR 0x09)] e"

text \<open>The text of a string literal after its opening quote, and what follows it.\<close>

fun scan_string :: "string \<Rightarrow> string \<Rightarrow> (string \<times> string) option" where
  "scan_string acc [] = None"
| "scan_string acc [c] = (if c = CHR 0x22 then Some (rev acc, []) else None)"
| "scan_string acc (c # e # cs) =
     (if c = CHR 0x22 then Some (rev acc, e # cs)
      else if c = CHR 0x5C then
        (case decode_escape e of None \<Rightarrow> None
         | Some d \<Rightarrow> scan_string (d # acc) cs)
      else if (of_char c :: nat) < 32 then None
      else scan_string (c # acc) (e # cs))"

definition decode_number :: "string \<Rightarrow> (json \<times> string) option" where
  "decode_number s =
     (let negative = startswith s ''-'';
          body = (if negative then tl s else s);
          ds = takeWhile is_digit body;
          rest = dropWhile is_digit body;
          n = int (foldl (\<lambda>n c. 10 * n + digit_val c) 0 ds)
      in if ds = [] \<or> (length ds > 1 \<and> hd ds = CHR ''0'') then None
         else if startswith rest ''.'' \<or> startswith rest ''e'' \<or> startswith rest ''E''
           then None
         else Some (JInt (if negative then - n else n), rest))"

fun dict_set :: "(string \<times> json) list \<Rightarrow> string \<Rightarrow> json \<Rightarrow> (string \<times> json) list" where
  "dict_set [] k v = [(k, v)]"
| "dict_set ((k', v') # kvs) k v =
     (if k' = k then (k, v) # kvs else (k', v') # dict_set kvs k v)"

text \<open>
  The first argument bounds the number of nested calls; \<open>json_loads\<close> starts with
  more than the length of the text, and every call consumes a character.
\<close>

fun decode_value :: "nat \<Rightarrow> string \<Rightarrow> (json \<times> string) option"
  and decode_members ::
    "nat \<Rightarrow> (string \<times> json) list \<Rightarrow> string \<Rightarrow> ((string \<times> json) list \<times> string) option"
  and decode_elements :: "nat \<Rightarrow> json list \<Rightarrow> string \<Rightarrow> (json list \<times> string) option"
where
  "decode_value 0 s = None"
| "decode_value (Suc n) s =
     (case skip_ws s of [] \<Rightarrow> None
      | c # cs \<Rightarrow>
        if c = CHR ''{'' then
          (if startswith (skip_ws cs) ''}'' then Some (JObject [], tl (skip_ws cs))
           else map_option (apfst JObject) (decode_members n [] cs))
        else if c = CHR ''['' then
          (if startswith (skip_ws cs) '']'' then Some (JArray [], tl (skip_ws cs))
           else map_option (apfst JArray) (decode_elements n [] cs))
        else if c = CHR 0x22 then map_option (apfst JString) (scan_string [] cs)
        else if startswith (c # cs) ''true'' then Some (JBool True, drop 4 (c # cs))
        else if startswith (c # cs) ''false'' then Some (JBool False, drop 5 (c # cs))
        else if startswith (c # cs) ''null'' then Some (JNull, drop 4 (c # cs))
        else decode_number (c # cs))"
| "decode_members 0 acc s = None"
| "decode_members (Suc n) acc s =
     (case skip_ws s of [] \<Rightarrow> None
      | c # cs \<Rightarrow>
        if c \<noteq> CHR 0x22 then None
        else
          (case scan_string [] cs of None \<Rightarrow> None
           | Some (key, after_key) \<Rightarrow>
             if \<not> startswith (skip_ws after_key) '':'' then None
             else
               (case decode_value n (tl (skip_ws after_key)) of None \<Rightarrow> None
                | Some (v, after_value) \<Rightarrow>
                  if startswith (skip_ws after_value) '','' then
                    decode_members n (dict_set acc key v) (tl (skip_ws after_value))
                  else if startswith (skip_ws after_value) ''}'' then
                    Some (dict_set acc key v, tl (skip_ws after_value))
                  else None)))"
| "decode_elements 0 acc s = None"
| "decode_elements (Suc n) acc s =
     (case decode_value n s of None \<Rightarrow> None
      | Some (v, after_value) \<Rightarrow>
        if startswith (skip_ws after_value) '','' then
          decode_elements n (acc @ [v]) (tl (skip_ws after_value))
        else if startswith (skip_ws after_value) '']'' then
          Some (acc @ [v], tl (skip_ws after_value))
        else None)"

definition json_loads :: "string \<Rightarrow> json option" where
  "json_loads s =
     (case decode_value (Suc (length s)) s of None \<Rightarrow> None
      | Some (v, rest) \<Rightarrow> if skip_ws rest = [] then Some v else None)"

section \<open>The orchestrating client\<close>

text \<open>
  Modelled from the spec: \<open>GeminiOptions\<close> (\<open>types.py\<close>) and the \<open>Transport\<close>
  interface are not among the sources.  Of the options only the four fields
  \<open>process_query\<close> reads are kept.  A transport is given by what each of its three
  calls does during one query: \<open>connect\<close> and \<open>disconnect\<close> return or raise,
  \<open>execute\<close> returns the captured \<open>(stdout, stderr)\<close> or raises.  \<open>'e\<close> is the type
  of exceptions (instances of \<open>Exception\<close>, which is what \<open>except Exception\<close>
  catches).
\<close>

record gemini_options =
  model :: "string option"
  cwd :: "string option"
  sandbox :: bool
  yolo :: bool










section \<open>Notions of the specification\<close>

text \<open>
  The definitions of this section follow the words of the specification, or name
  what the loops of the parser do with a line; the theorems below relate them to
  the code.
\<close>

subsection \<open>Format detection\<close>

text \<open>A text contains an occurrence of a sequence of characters.\<close>

definition occurs_in :: "string \<Rightarrow> string \<Rightarrow> bool" where
  "occurs_in sub s = (\<exists>pre post. s = pre @ sub @ post)"

text \<open>
  Single-JSON mode: the trimmed text starts with \<open>{\<close> and the text contains no
  newline followed by \<open>{\<close>.
\<close>

definition single_json_mode :: "string \<Rightarrow> bool" where
  "single_json_mode cleaned =
     ((\<exists>rest. py_strip cleaned = CHR ''{'' # rest)
      \<and> \<not> occurs_in (newline # ''{'') cleaned)"

subsection \<open>Messages\<close>

fun is_result :: "message \<Rightarrow> bool" where
  "is_result (ResultMessage r) = True"
| "is_result _ = False"


subsection \<open>Well-formed single-JSON payloads\<close>









subsection \<open>Lines of a stream\<close>

text \<open>
  The trimmed lines the loop of \<open>_parse_stream_json\<close> does not skip at its first
  test: those that start with \<open>{\<close>.
\<close>

definition event_lines :: "string list \<Rightarrow> string list" where
  "event_lines ls = filter (\<lambda>l. startswith l ''{'') (map py_strip ls)"




definition corrupt_line :: "(string \<Rightarrow> json option) \<Rightarrow> string \<Rightarrow> bool" where
  "corrupt_line loads line =
     (\<not> startswith (py_strip line) ''{'' \<or> loads (py_strip line) = None)"






section \<open>Concrete payloads\<close>

definition example_clock :: "nat \<Rightarrow> int" where
  "example_clock n = 1700000000000 + int n"

definition hello_stdout :: string where
  \<open>hello_stdout = ''{"response":"Hello!","stats":{"models":{"m1":{"api":{"totalLatencyMs":120},"tokens":{"total":42}}},"tools":{"totalCalls":0}}}''\<close>


definition init_event :: string where
  \<open>init_event = ''{"type":"init","session_id":"s-1","model":"gemini-2.0-flash"}''\<close>

definition user_event :: string where
  \<open>user_event = ''{"type":"message","role":"user","content":""}''\<close>

definition prompt_event :: string where
  \<open>prompt_event = ''{"type":"message","role":"user","content":"hi"}''\<close>

definition delta_event :: string where
  \<open>delta_event = ''  {"type":"message","role":"assistant","content":"Hi","delta":true}''\<close>

definition result_event :: string where
  \<open>result_event = ''{"type":"result","status":"success","stats":{"duration_ms":7}}''\<close>



definition broken_line :: string where
  \<open>broken_line = ''{oops''\<close>

definition long_stdout :: string where
  \<open>long_stdout = ''{"response":"0123456789012345678901234567890123456789012345678901234567890123456789012345678901234567890123456789abcdefghij"}''\<close>





section \<open>Lemmas\<close>

subsection \<open>Strings\<close>

lemma startswith_Nil [simp]: "\<not> startswith [] (c # p)"
  by (simp add: startswith_def)

lemma startswith_single: "startswith s [c] = (\<exists>rest. s = c # rest)"
  by (cases s) (auto simp: startswith_def)

lemma py_strip_Nil [simp]: "py_strip [] = []"
  by (simp add: py_strip_def)

lemma py_strip_space_Cons: "is_space c \<Longrightarrow> py_strip (c # s) = py_strip s"
  by (simp add: py_strip_def)

lemma py_strip_space_snoc: "is_space c \<Longrightarrow> py_strip (s @ [c]) = py_strip s"
proof (cases "\<forall>x\<in>set s. is_space x")
  case True
  assume c: "is_space c"
  have a: "dropWhile is_space s = []"
    using True by (simp add: dropWhile_eq_Nil_conv)
  have b: "dropWhile is_space (s @ [c]) = []"
    using True c by (simp add: dropWhile_eq_Nil_conv)
  show ?thesis unfolding py_strip_def a b by simp
next
  case False
  assume c: "is_space c"
  from False have "dropWhile is_space (s @ [c]) = dropWhile is_space s @ [c]"
    by (auto simp: dropWhile_append1)
  with c show ?thesis by (simp add: py_strip_def)
qed

lemma py_strip_no_space_ends:
  assumes "py_strip s \<noteq> []"
  shows "\<not> is_space (hd (py_strip s))" and "\<not> is_space (last (py_strip s))"
proof -
  let ?u = "dropWhile is_space s"
  let ?v = "dropWhile is_space (rev ?u)"
  from assms have v: "?v \<noteq> []" by (simp add: py_strip_def)
  have "?v = []" if "?u = []"
    using that by (simp only: rev.simps dropWhile.simps)
  with v have u: "?u \<noteq> []" by blast
  have "\<not> is_space (hd ?v)" using v by (rule hd_dropWhile)
  then show "\<not> is_space (last (py_strip s))"
    using v by (simp add: py_strip_def last_rev)
  have hu: "\<not> is_space (hd ?u)" using u by (rule hd_dropWhile)
  obtain w where w: "rev ?u = w @ ?v"
    by (metis takeWhile_dropWhile_id)
  then have "?u = rev ?v @ rev w" by (metis rev_append rev_rev_ident)
  with v have "hd (rev ?v) = hd ?u" by (metis hd_append2 rev_is_Nil_conv)
  with hu show "\<not> is_space (hd (py_strip s))" by (simp add: py_strip_def)
qed

lemma py_strip_idem [simp]: "py_strip (py_strip s) = py_strip s"
proof (cases "py_strip s = []")
  case True
  then show ?thesis by simp
next
  case False
  note ends = py_strip_no_space_ends[OF False]
  have 1: "dropWhile is_space (py_strip s) = py_strip s"
    using ends(1) by (simp add: dropWhile_eq_self_iff)
  have 2: "dropWhile is_space (rev (py_strip s)) = rev (py_strip s)"
    using ends(2) by (simp add: dropWhile_eq_self_iff hd_rev)
  show ?thesis
    unfolding py_strip_def[of "py_strip s"] 1 2 by simp
qed

lemma split_nl_not_Nil [simp]: "split_nl s \<noteq> []"
  by (induction s) (auto split: list.splits)

lemma split_nl_no_newline: "l \<in> set (split_nl s) \<Longrightarrow> newline \<notin> set l"
proof (induction s arbitrary: l)
  case Nil
  then show ?case by simp
next
  case (Cons c s)
  obtain x xs where xs: "split_nl s = x # xs" by (cases "split_nl s") simp_all
  show ?case
  proof (cases "c = newline")
    case True
    with Cons show ?thesis by auto
  next
    case False
    with Cons.prems xs have "l = c # x \<or> l \<in> set xs" by simp
    then show ?thesis using Cons.IH xs False by auto
  qed
qed

lemma split_nl_line: "newline \<notin> set l \<Longrightarrow> split_nl l = [l]"
  by (induction l) auto

lemma split_nl_line_append:
  "newline \<notin> set l \<Longrightarrow> split_nl (l @ newline # s) = l # split_nl s"
  by (induction l) auto

lemma split_join_nl:
  "ls \<noteq> [] \<Longrightarrow> \<forall>l\<in>set ls. newline \<notin> set l \<Longrightarrow> split_nl (join_nl ls) = ls"
proof (induction ls rule: join_nl.induct)
  case 1
  then show ?case by simp
next
  case (2 l)
  then show ?case by (simp add: split_nl_line)
next
  case (3 l l' ls)
  then show ?case by (simp add: split_nl_line_append)
qed

lemma split_nl_snoc:
  "split_nl (s @ [c]) =
     (if c = newline then split_nl s @ [[]]
      else butlast (split_nl s) @ [last (split_nl s) @ [c]])"
proof (induction s)
  case Nil
  then show ?case by simp
next
  case (Cons a s)
  obtain x xs where xs: "split_nl s = x # xs" by (cases "split_nl s") simp_all
  obtain y ys where ys: "split_nl (s @ [c]) = y # ys" by (cases "split_nl (s @ [c])") simp_all
  show ?case
  proof (cases "a = newline")
    case True
    with Cons show ?thesis by simp
  next
    case False
    with Cons xs ys show ?thesis
      by (cases xs) (auto split: if_splits)
  qed
qed

subsection \<open>Event lines\<close>

lemma event_lines_Nil [simp]: "event_lines [] = []"
  by (simp add: event_lines_def)

lemma event_lines_append: "event_lines (xs @ ys) = event_lines xs @ event_lines ys"
  by (simp add: event_lines_def)

lemma event_lines_Cons:
  "event_lines (l # ls) =
     (if startswith (py_strip l) ''{'' then py_strip l # event_lines ls else event_lines ls)"
  by (simp add: event_lines_def)

lemma event_lines_blank [simp]: "event_lines [[]] = []"
  by (simp add: event_lines_def)

lemma event_lines_space_Cons:
  assumes "is_space c"
  shows "event_lines (split_nl (c # s)) = event_lines (split_nl s)"
proof (cases "c = newline")
  case True
  then show ?thesis by (simp add: event_lines_Cons)
next
  case False
  obtain x xs where xs: "split_nl s = x # xs" by (cases "split_nl s") simp_all
  with False assms show ?thesis
    by (simp add: event_lines_Cons py_strip_space_Cons)
qed

lemma event_lines_dropWhile:
  "event_lines (split_nl (dropWhile is_space s)) = event_lines (split_nl s)"
  by (induction s) (simp_all add: event_lines_space_Cons del: split_nl.simps)

lemma event_lines_space_snoc:
  assumes "is_space c"
  shows "event_lines (split_nl (s @ [c])) = event_lines (split_nl s)"
proof (cases "c = newline")
  case True
  then show ?thesis by (simp add: split_nl_snoc event_lines_append)
next
  case False
  have "split_nl s = butlast (split_nl s) @ [last (split_nl s)]" by simp
  then have "event_lines (split_nl s) =
      event_lines (butlast (split_nl s)) @ event_lines [last (split_nl s)]"
    by (metis event_lines_append)
  with False assms show ?thesis
    by (simp add: split_nl_snoc event_lines_append event_lines_Cons py_strip_space_snoc)
qed

lemma event_lines_dropWhile_end:
  "event_lines (split_nl (rev (dropWhile is_space (rev s)))) = event_lines (split_nl s)"
proof (induction s rule: rev_induct)
  case Nil
  then show ?case by simp
next
  case (snoc c s)
  then show ?case by (simp add: event_lines_space_snoc)
qed

lemma event_lines_strip: "event_lines (split_nl (py_strip s)) = event_lines (split_nl s)"
  unfolding py_strip_def
  by (simp only: event_lines_dropWhile_end event_lines_dropWhile)

lemma event_lines_join:
  assumes "\<forall>l\<in>set ls. newline \<notin> set l"
  shows "event_lines (split_nl (join_nl ls)) = event_lines ls"
proof (cases "ls = []")
  case True
  then show ?thesis by simp
next
  case False
  with assms show ?thesis by (simp add: split_join_nl)
qed

subsection \<open>Cleaning\<close>

lemma clean_lines_started: "acc \<noteq> [] \<Longrightarrow> clean_lines ls acc = acc @ ls"
  by (induction ls arbitrary: acc) (simp_all add: Let_def)

lemma clean_lines_dropWhile:
  "clean_lines ls [] =
     dropWhile (\<lambda>l. \<not> (startswith (py_strip l) ''{'' \<or> startswith (py_strip l) ''['')) ls"
  by (induction ls) (simp_all add: Let_def clean_lines_started)

lemma event_lines_clean: "event_lines (clean_lines ls []) = event_lines ls"
  unfolding clean_lines_dropWhile
  by (induction ls) (simp_all add: event_lines_Cons)

lemma clean_lines_subset: "set (clean_lines ls []) \<subseteq> set ls"
  unfolding clean_lines_dropWhile by (auto dest: set_dropWhileD)

lemma event_lines_clean_output:
  "event_lines (split_nl (clean_output raw)) = event_lines (split_nl raw)"
proof -
  have "\<forall>l\<in>set (clean_lines (split_nl (py_strip raw)) []). newline \<notin> set l"
    using clean_lines_subset split_nl_no_newline by blast
  then have "event_lines (split_nl (clean_output raw)) =
      event_lines (clean_lines (split_nl (py_strip raw)) [])"
    unfolding clean_output_def by (rule event_lines_join)
  then show ?thesis by (simp add: event_lines_clean event_lines_strip)
qed

subsection \<open>Single-JSON totals\<close>




subsection \<open>One line of a stream\<close>

lemma startswith_not_Nil: "startswith s (c # p) \<Longrightarrow> s \<noteq> []"
  by (auto simp: startswith_def)

lemma stream_line_strip:
  "stream_line loads clock st (py_strip line) = stream_line loads clock st line"
  by (simp add: stream_line_def)

lemma stream_line_corrupt:
  "corrupt_line loads line \<Longrightarrow> stream_line loads clock st line = Inr st"
  by (auto simp: stream_line_def corrupt_line_def Let_def)



lemma stream_lines_append:
  "stream_lines loads clock st (xs @ ys) =
     (case stream_lines loads clock st xs of Inl e \<Rightarrow> Inl e
      | Inr st' \<Rightarrow> stream_lines loads clock st' ys)"
  by (induction xs arbitrary: st) (simp_all split: sum.splits)

lemma stream_lines_event_lines:
  "stream_lines loads clock st (event_lines ls) = stream_lines loads clock st ls"
proof (induction ls arbitrary: st)
  case Nil
  then show ?case by simp
next
  case (Cons l ls)
  show ?case
  proof (cases "startswith (py_strip l) ''{''")
    case True
    then show ?thesis
      by (simp add: event_lines_Cons stream_line_strip Cons.IH split: sum.splits)
  next
    case False
    then have "stream_line loads clock st l = Inr st"
      by (simp add: stream_line_corrupt corrupt_line_def)
    with False show ?thesis by (simp add: event_lines_Cons Cons.IH)
  qed
qed

lemma parse_stream_json_events:
  "parse_stream_json loads clock s =
     map_sum id messages (stream_lines loads clock initial_state (event_lines (split_nl s)))"
  unfolding parse_stream_json_def
  by (metis stream_lines_event_lines event_lines_strip)

subsection \<open>Format detection\<close>

lemma startswith_iff: "startswith s p = (\<exists>post. s = p @ post)"
  unfolding startswith_def
  by (metis append_eq_conv_conj append_take_drop_id)

lemma occurs_in_Nil: "occurs_in sub [] = (sub = [])"
  by (simp add: occurs_in_def)

lemma occurs_in_Cons:
  "occurs_in sub (c # cs) = (startswith (c # cs) sub \<or> occurs_in sub cs)"
proof
  assume "occurs_in sub (c # cs)"
  then obtain pre post where eq: "c # cs = pre @ sub @ post"
    by (auto simp: occurs_in_def)
  show "startswith (c # cs) sub \<or> occurs_in sub cs"
  proof (cases pre)
    case Nil
    with eq show ?thesis by (auto simp: startswith_iff)
  next
    case (Cons p pre')
    with eq have "cs = pre' @ sub @ post" by simp
    then show ?thesis by (auto simp: occurs_in_def)
  qed
next
  assume "startswith (c # cs) sub \<or> occurs_in sub cs"
  then show "occurs_in sub (c # cs)"
  proof
    assume "startswith (c # cs) sub"
    then obtain post where "c # cs = [] @ sub @ post" by (auto simp: startswith_iff)
    then show ?thesis unfolding occurs_in_def by blast
  next
    assume "occurs_in sub cs"
    then obtain pre post where "cs = pre @ sub @ post" by (auto simp: occurs_in_def)
    then have "c # cs = (c # pre) @ sub @ post" by simp
    then show ?thesis unfolding occurs_in_def by blast
  qed
qed

lemma py_in_occurs: "py_in sub s = occurs_in sub s"
  by (induction s) (simp_all add: occurs_in_Nil occurs_in_Cons)

lemma single_json_mode_code:
  "single_json_mode cleaned =
     (startswith (py_strip cleaned) ''{'' \<and> \<not> py_in (newline # ''{'') cleaned)"
  by (simp add: single_json_mode_def py_in_occurs startswith_single)

lemma parse_stream_branch:
  assumes "\<not> single_json_mode (clean_output raw)"
  shows "parse loads clock raw stderr =
           map_sum (ParsingError raw) messages
             (stream_lines loads clock initial_state (event_lines (split_nl raw)))"
proof -
  have stream: "map_sum (ParsingError raw) id (parse_stream_json loads clock (clean_output raw)) =
      map_sum (ParsingError raw) messages
        (stream_lines loads clock initial_state (event_lines (split_nl raw)))"
    by (simp add: parse_stream_json_events event_lines_clean_output sum.map_comp)
  show ?thesis
  proof (cases "raw = [] \<or> py_strip raw = [] \<or> clean_output raw = []")
    case True
    then have "event_lines (split_nl raw) = []"
    proof (elim disjE)
      assume "raw = []"
      then show ?thesis by simp
    next
      assume "py_strip raw = []"
      then have "event_lines (split_nl (py_strip raw)) = []" by simp
      then show ?thesis by (simp only: event_lines_strip)
    next
      assume "clean_output raw = []"
      then have "event_lines (split_nl (clean_output raw)) = []" by simp
      then show ?thesis by (simp only: event_lines_clean_output)
    qed
    with True show ?thesis by (auto simp: parse_def initial_state_def Let_def)
  next
    case False
    from assms have "\<not> (startswith (py_strip (clean_output raw)) ''{''
        \<and> \<not> py_in (newline # ''{'') (clean_output raw))"
      by (simp add: single_json_mode_code)
    with False stream show ?thesis
      by (auto simp: parse_def Let_def)
  qed
qed

subsection \<open>A corrupt line\<close>

lemma stream_lines_insert_corrupt:
  assumes "corrupt_line loads c"
  shows "stream_lines loads clock st (pre @ c # post) = stream_lines loads clock st (pre @ post)"
  by (simp add: stream_lines_append stream_line_corrupt[OF assms] split: sum.splits)

lemma events_insert_corrupt:
  assumes "\<forall>l\<in>set (pre @ c # post). newline \<notin> set l" and "corrupt_line loads c"
  shows "stream_lines loads clock st (event_lines (split_nl (join_nl (pre @ c # post)))) =
         stream_lines loads clock st (event_lines (split_nl (join_nl (pre @ post))))"
proof -
  from assms(1) have "\<forall>l\<in>set (pre @ post). newline \<notin> set l" by auto
  with assms(1) show ?thesis
    by (simp only: event_lines_join stream_lines_event_lines
          stream_lines_insert_corrupt[OF assms(2)])
qed

subsection \<open>Events of a stream\<close>






subsection \<open>Lines of a stream\<close>








subsection \<open>The most recent init line\<close>










subsection \<open>Faults of the stream decoder\<close>




subsection \<open>The client\<close>






section \<open>Properties of the specification\<close>

subsection \<open>C1: well-formed single-JSON payloads\<close>



subsection \<open>C2: a corrupt line in a stream\<close>

text \<open>
  C2, as stated, fails.  A stream of one valid event line is classified as
  single-JSON when parsed alone, and as stream-JSON once a corrupt line that
  starts with \<open>{\<close> follows it: alone, the \<open>user\<close> message line yields one
  \<open>ResultMessage\<close>; with the corrupt line \<open>{oops\<close>, it yields one \<open>UserMessage\<close>.
\<close>

theorem corrupt_line_changes_single_event:
  "json_loads (py_strip broken_line) = None
   \<and> parse json_loads example_clock (join_nl [prompt_event, broken_line]) [] =
       Inr [UserMessage (JString ''hi'')]
   \<and> parse json_loads example_clock prompt_event [] =
       Inr [ResultMessage
             \<lparr> subtype = JString ''success'',
               duration_ms = JInt 0,
               is_error = False,
               session_id = JString ''gemini-1700000000000'',
               num_turns = 1,
               total_cost_usd = None,
               usage = Some [(''total_tokens'', JInt 0), (''tool_calls'', JInt 0),
                             (''models'', JObject [])],
               result = None \<rparr>]"
  by code_simp

text \<open>
  C2, amended.  For lines without a newline and a corrupt line \<open>c\<close> (its trimmed
  text does not start with \<open>{\<close>, or \<open>json.loads\<close> rejects it), the stream decoder
  returns the same for the lines with \<open>c\<close> inserted anywhere as for the lines
  alone; and when both payloads are classified as stream-JSON, so does \<open>parse\<close>:
  the same messages, or the same fault wrapped in a \<open>ParsingError\<close>.
\<close>

theorem corrupt_line_ignored:
  assumes "\<forall>l\<in>set (pre @ c # post). newline \<notin> set l"
    and "corrupt_line loads c"
    and "\<not> single_json_mode (clean_output (join_nl (pre @ c # post)))"
    and "\<not> single_json_mode (clean_output (join_nl (pre @ post)))"
  shows "parse_stream_json loads clock (join_nl (pre @ c # post)) =
           parse_stream_json loads clock (join_nl (pre @ post))
       \<and> map_sum original_error_of id (parse loads clock (join_nl (pre @ c # post)) stderr) =
           map_sum original_error_of id (parse loads clock (join_nl (pre @ post)) stderr)"
  by (simp add: parse_stream_json_events parse_stream_branch[OF assms(3)]
        parse_stream_branch[OF assms(4)] events_insert_corrupt[OF assms(1,2)]
        sum.map_comp comp_def)

theorem corrupt_line_ignored_witness:
  "parse_stream_json json_loads example_clock (join_nl ([init_event] @ broken_line # [result_event])) =
     parse_stream_json json_loads example_clock (join_nl ([init_event] @ [result_event]))
   \<and> map_sum original_error_of id
         (parse json_loads example_clock (join_nl ([init_event] @ broken_line # [result_event])) [])
       = map_sum original_error_of id
           (parse json_loads example_clock (join_nl ([init_event] @ [result_event])) [])"
proof -
  have 1: "\<forall>l\<in>set ([init_event] @ broken_line # [result_event]). newline \<notin> set l"
    by (simp add: init_event_def broken_line_def result_event_def newline_def)
  have 2: "corrupt_line json_loads broken_line"
    by code_simp
  have 3: "\<not> single_json_mode (clean_output (join_nl ([init_event] @ broken_line # [result_event])))"
    unfolding single_json_mode_code by code_simp
  have 4: "\<not> single_json_mode (clean_output (join_nl ([init_event] @ [result_event])))"
    unfolding single_json_mode_code by code_simp
  show ?thesis
    by (rule corrupt_line_ignored[OF 1 2 3 4])
qed

subsection \<open>C3: session ids of result and error lines\<close>




subsection \<open>C4: faults in the client\<close>



subsection \<open>C5: format detection\<close>

text \<open>
  C5.  After cleaning, \<open>parse\<close> decodes the text as single-JSON if and only if the
  trimmed text starts with \<open>{\<close> and the cleaned text contains no newline followed
  by \<open>{\<close>; in every other case it decodes it as stream-JSON.
\<close>

theorem parse_format_detection:
  "parse loads clock raw_output stderr =
     (if raw_output = [] \<or> py_strip raw_output = [] \<or> clean_output raw_output = []
      then Inr []
      else map_sum (ParsingError raw_output) id
             (if single_json_mode (clean_output raw_output)
              then parse_single_json loads (clock 0) (clean_output raw_output)
              else parse_stream_json loads clock (clean_output raw_output)))"
  by (simp add: parse_def single_json_mode_code Let_def)

theorem parse_format_detection_witness:
  "single_json_mode (clean_output hello_stdout)
   \<and> parse json_loads example_clock hello_stdout [] =
       map_sum (ParsingError hello_stdout) id
         (parse_single_json json_loads (example_clock 0) (clean_output hello_stdout))
   \<and> \<not> single_json_mode (clean_output (join_nl [init_event, result_event]))
   \<and> parse json_loads example_clock (join_nl [init_event, result_event]) [] =
       map_sum (ParsingError (join_nl [init_event, result_event])) id
         (parse_stream_json json_loads example_clock
            (clean_output (join_nl [init_event, result_event])))"
proof -
  have 1: "single_json_mode (clean_output hello_stdout)"
    unfolding single_json_mode_code by code_simp
  have 2: "\<not> (hello_stdout = [] \<or> py_strip hello_stdout = [] \<or> clean_output hello_stdout = [])"
    by code_simp
  have 3: "\<not> single_json_mode (clean_output (join_nl [init_event, result_event]))"
    unfolding single_json_mode_code by code_simp
  have 4: "\<not> (join_nl [init_event, result_event] = []
             \<or> py_strip (join_nl [init_event, result_event]) = []
             \<or> clean_output (join_nl [init_event, result_event]) = [])"
    by code_simp
  show ?thesis
    using parse_format_detection[of json_loads example_clock hello_stdout "[]"]
      parse_format_detection[of json_loads example_clock "join_nl [init_event, result_event]" "[]"]
      1 2 3 4
    by (simp only: if_False if_True simp_thms)
qed

subsection \<open>C6: result text and cost of a single-JSON payload\<close>

text \<open>
  C6.  Whenever \<open>_parse_single_json\<close> returns, its messages hold exactly one
  \<open>ResultMessage\<close>, the last message; its \<open>total_cost_usd\<close> is absent; and its
  \<open>result\<close> is the first 100 characters of the response text when the response is
  a non-empty string, and absent when the response is empty (or missing, or
  another falsy value).  A non-empty list as response gives its first 100 items;
  any other response makes the function raise.
\<close>

theorem single_json_result_fields:
  assumes "parse_single_json loads now json_str = Inr ms"
  shows "\<exists>data rm. loads json_str = Some data
           \<and> filter is_result ms = [ResultMessage rm]
           \<and> last ms = ResultMessage rm
           \<and> total_cost_usd rm = None
           \<and> result rm =
               (case py_get data ''response'' (JString []) of
                  Inr (JString r) \<Rightarrow> if r = [] then None else Some (JString (take 100 r))
                | Inr (JArray xs) \<Rightarrow> if xs = [] then None else Some (JArray (take 100 xs))
                | _ \<Rightarrow> None)"
  using assms unfolding parse_single_json_def Let_def
  by (auto split: option.splits sum.splits if_splits prod.splits json.splits)

theorem single_json_result_fields_witness:
  "\<exists>data rm. json_loads long_stdout = Some data
     \<and> filter is_result
         [AssistantMessage [TextBlock (JString (''0123456789012345678901234567890123456789012345678901234567890123456789012345678901234567890123456789'' @ ''abcdefghij''))],
          ResultMessage
            \<lparr> subtype = JString ''success'', duration_ms = JInt 0, is_error = False,
              session_id = JString ''gemini-5'', num_turns = 1, total_cost_usd = None,
              usage = Some [(''total_tokens'', JInt 0), (''tool_calls'', JInt 0),
                            (''models'', JObject [])],
              result = Some (JString ''0123456789012345678901234567890123456789012345678901234567890123456789012345678901234567890123456789'') \<rparr>]
       = [ResultMessage rm]
     \<and> total_cost_usd rm = None
     \<and> result rm = Some (JString ''0123456789012345678901234567890123456789012345678901234567890123456789012345678901234567890123456789'')"
proof -
  have run: "parse_single_json json_loads 5 long_stdout =
     Inr [AssistantMessage [TextBlock (JString (''0123456789012345678901234567890123456789012345678901234567890123456789012345678901234567890123456789'' @ ''abcdefghij''))],
          ResultMessage
            \<lparr> subtype = JString ''success'', duration_ms = JInt 0, is_error = False,
              session_id = JString ''gemini-5'', num_turns = 1, total_cost_usd = None,
              usage = Some [(''total_tokens'', JInt 0), (''tool_calls'', JInt 0),
                            (''models'', JObject [])],
              result = Some (JString ''0123456789012345678901234567890123456789012345678901234567890123456789012345678901234567890123456789'') \<rparr>]"
    by code_simp
  show ?thesis
    using single_json_result_fields[OF run] by auto
qed

subsection \<open>C7: the place of system messages\<close>




subsection \<open>C8: message lines of a stream\<close>

text \<open>
  C8.  A stream line of type \<open>message\<close> whose content is a string appends exactly
  one \<open>UserMessage\<close> with that content when its role is \<open>user\<close>, also when the
  content is empty; it appends exactly one \<open>AssistantMessage\<close> with one \<open>TextBlock\<close>
  when its role is \<open>assistant\<close> and the content is non-empty, and nothing
  otherwise.  The messages before it stay as they are, whatever the \<open>delta\<close>
  field of the line holds.
\<close>

theorem stream_message_line:
  assumes "startswith (py_strip line) ''{''"
    and "loads (py_strip line) = Some (JObject data)"
    and "dict_get data ''type'' JNull = JString ''message''"
    and "dict_get data ''content'' (JString []) = JString content"
  shows "stream_line loads clock st line =
           Inr (if dict_get data ''role'' JNull = JString ''user''
                then st \<lparr> messages := messages st @ [UserMessage (JString content)] \<rparr>
                else if dict_get data ''role'' JNull = JString ''assistant'' \<and> content \<noteq> []
                then st \<lparr> messages := messages st @
                                        [AssistantMessage [TextBlock (JString content)]] \<rparr>
                else st)"
proof -
  from assms(1) have "py_strip line \<noteq> []"
    by (rule startswith_not_Nil)
  with assms show ?thesis
    by (simp add: stream_line_def stream_event_def Let_def)
qed

theorem stream_message_line_witness:
  "stream_line json_loads example_clock initial_state user_event =
     Inr (initial_state \<lparr> messages := [UserMessage (JString [])] \<rparr>)
   \<and> stream_line json_loads example_clock initial_state delta_event =
     Inr (initial_state \<lparr> messages := [AssistantMessage [TextBlock (JString ''Hi'')]] \<rparr>)"
proof -
  have u1: "startswith (py_strip user_event) ''{''"
    by code_simp
  have u2: "json_loads (py_strip user_event) =
              Some (JObject [(''type'', JString ''message''), (''role'', JString ''user''),
                             (''content'', JString [])])"
    by code_simp
  have d1: "startswith (py_strip delta_event) ''{''"
    by code_simp
  have d2: "json_loads (py_strip delta_event) =
              Some (JObject [(''type'', JString ''message''), (''role'', JString ''assistant''),
                             (''content'', JString ''Hi''), (''delta'', JBool True)])"
    by code_simp
  show ?thesis
    using stream_message_line[where loads = json_loads and clock = example_clock
            and st = initial_state and content = "[]", OF u1 u2]
          stream_message_line[where loads = json_loads and clock = example_clock
            and st = initial_state and content = "''Hi''", OF d1 d2]
    by (simp add: dict_get_def initial_state_def)
qed

subsection \<open>C9: the standard error text\<close>

text \<open>
  C9.  The result of \<open>parse\<close> does not depend on its \<open>stderr\<close> argument: for the
  same stdout (and the same clock readings), any two stderr texts give the same
  result.
\<close>

theorem parse_ignores_stderr:
  "parse loads clock raw_output stderr1 = parse loads clock raw_output stderr2"
  by (simp add: parse_def)

theorem parse_ignores_stderr_witness:
  "parse json_loads example_clock hello_stdout ''Loaded cached credentials.'' =
     parse json_loads example_clock hello_stdout []"
  by (rule parse_ignores_stderr)

subsection \<open>C10: faults of the stream branch\<close>




end
